theory Spec2Isabelle
  imports Main "HOL-Library.AList"
begin

section \<open>Value types (models.py)\<close>

text \<open>
  The enumerations of models.py. \<open>Access.is_allowed\<close> is \<open>self == self.allow\<close>.
\<close>

datatype RelationUpdateType = create | grant | revoke

datatype Access = allow | forbid | undefined

definition is_allowed_Access :: "Access \<Rightarrow> bool" where
  "is_allowed_Access a = (a = allow)"

text \<open>
  An identifier is annotated \<open>Union[str, int]\<close>. Python's \<open>str\<close> leaves a string as it is
  and prints an integer in decimal, with a leading minus sign when it is negative.
\<close>

datatype ident = IStr string | IInt int

function str_nat :: "nat \<Rightarrow> string" where
  "str_nat n =
     (if n < 10 then [''0123456789'' ! n]
      else str_nat (n div 10) @ [''0123456789'' ! (n mod 10)])"
  by pat_completeness auto
termination
  by (relation "measure id") auto

declare str_nat.simps [simp del]

definition str_int :: "int \<Rightarrow> string" where
  "str_int i = (if i < 0 then CHR ''-'' # str_nat (nat (- i)) else str_nat (nat i))"

fun str_py :: "ident \<Rightarrow> string" where
  "str_py (IStr s) = s"
| "str_py (IInt i) = str_int i"

text \<open>
  The exceptions the layer raises or lets through. \<open>RpcError\<close> stands for whatever the
  remote call itself raises (a transport failure); \<open>ValidationError\<close> is pydantic's.
\<close>

datatype error =
    ValueError string
  | RuntimeError string
  | NotImplementedError string
  | AttributeError string
  | ValidationError string
  | CancelledError
  | RpcError string

text \<open>
  \<open>CheckRequest\<close> is a frozen pydantic dataclass. Its two \<open>mode="before"\<close> validators
  replace \<open>subject_id\<close> and \<open>resource_id\<close> by \<open>str(raw)\<close> before the field is stored, so a
  stored identifier is always a string: the fields of the record are strings, and
  \<open>new_CheckRequest\<close> is the call \<open>CheckRequest(...)\<close>.
\<close>

record CheckRequest =
  subject_type :: string
  subject_id :: string
  resource_type :: string
  resource_id :: string
  permission :: string

definition subject_id_validator :: "ident \<Rightarrow> string" where
  "subject_id_validator raw_subject_id = str_py raw_subject_id"

definition object_id_validator :: "ident \<Rightarrow> string" where
  "object_id_validator raw_resource_id = str_py raw_resource_id"

definition new_CheckRequest ::
  "string \<Rightarrow> ident \<Rightarrow> string \<Rightarrow> ident \<Rightarrow> string \<Rightarrow> CheckRequest" where
  "new_CheckRequest st sid rt rid p =
     \<lparr>CheckRequest.subject_type = st,
      subject_id = subject_id_validator sid,
      resource_type = rt,
      resource_id = object_id_validator rid,
      permission = p\<rparr>"

text \<open>
  A frozen dataclass with \<open>eq\<close> hashes the tuple of its fields; the hash of a tuple of
  strings is Python's own and is taken as a parameter.
\<close>

definition hash_CheckRequest ::
  "(string \<times> string \<times> string \<times> string \<times> string \<Rightarrow> 'h) \<Rightarrow> CheckRequest \<Rightarrow> 'h" where
  "hash_CheckRequest h r =
     h (CheckRequest.subject_type r, CheckRequest.subject_id r,
        CheckRequest.resource_type r, CheckRequest.resource_id r,
        CheckRequest.permission r)"

record ResourcesRequest =
  subject_type :: string
  subject_id :: ident
  resource_type :: string
  permission :: string

text \<open>
  \<open>RelationUpdateRequest\<close> has no validator: its identifiers stay as given. A keyword
  argument with a default is either left out or passed.
\<close>

datatype 'a arg = Omitted | Passed 'a

record RelationUpdateRequest =
  subject_type :: string
  subject_id :: ident
  resource_type :: string
  resource_id :: ident
  relation :: string
  subject_relation :: string
  update_type :: "RelationUpdateType option"

definition new_RelationUpdateRequest ::
  "string \<Rightarrow> ident \<Rightarrow> string \<Rightarrow> ident \<Rightarrow> string \<Rightarrow> string arg \<Rightarrow>
   RelationUpdateType option arg \<Rightarrow> RelationUpdateRequest" where
  "new_RelationUpdateRequest st sid rt rid rel srel ut =
     \<lparr>RelationUpdateRequest.subject_type = st,
      subject_id = sid,
      resource_type = rt,
      resource_id = rid,
      relation = rel,
      subject_relation = (case srel of Omitted \<Rightarrow> '''' | Passed s \<Rightarrow> s),
      update_type = (case ut of Omitted \<Rightarrow> None | Passed u \<Rightarrow> u)\<rparr>"

text \<open>
  The two subclasses redeclare the field as \<open>update_type: RelationUpdateType\<close> with a
  default of \<open>grant\<close> (respectively \<open>revoke\<close>). The field is still a constructor argument:
  a passed value replaces the default, and pydantic refuses \<open>None\<close> because the
  annotation is no longer optional.
\<close>

definition new_RelationUpdateGrantRequest ::
  "string \<Rightarrow> ident \<Rightarrow> string \<Rightarrow> ident \<Rightarrow> string \<Rightarrow> string arg \<Rightarrow>
   RelationUpdateType option arg \<Rightarrow> error + RelationUpdateRequest" where
  "new_RelationUpdateGrantRequest st sid rt rid rel srel ut =
     (case ut of
        Omitted \<Rightarrow> Inr (new_RelationUpdateRequest st sid rt rid rel srel (Passed (Some grant)))
      | Passed None \<Rightarrow> Inl (ValidationError ''update_type'')
      | Passed (Some u) \<Rightarrow>
          Inr (new_RelationUpdateRequest st sid rt rid rel srel (Passed (Some u))))"

definition new_RelationUpdateRevokeRequest ::
  "string \<Rightarrow> ident \<Rightarrow> string \<Rightarrow> ident \<Rightarrow> string \<Rightarrow> string arg \<Rightarrow>
   RelationUpdateType option arg \<Rightarrow> error + RelationUpdateRequest" where
  "new_RelationUpdateRevokeRequest st sid rt rid rel srel ut =
     (case ut of
        Omitted \<Rightarrow> Inr (new_RelationUpdateRequest st sid rt rid rel srel (Passed (Some revoke)))
      | Passed None \<Rightarrow> Inl (ValidationError ''update_type'')
      | Passed (Some u) \<Rightarrow>
          Inr (new_RelationUpdateRequest st sid rt rid rel srel (Passed (Some u))))"

section \<open>Messages of the remote interface\<close>

text \<open>
  The messages of the client library, with the fields this layer writes or reads. An
  unset \<open>optional_relation\<close> is the empty string.
\<close>

record ObjectReference =
  object_type :: string
  object_id :: string

record SubjectReference =
  object :: ObjectReference
  optional_relation :: string

datatype Consistency = Consistency_minimize_latency bool | Consistency_fully_consistent bool

datatype Permissionship =
    PERMISSIONSHIP_UNSPECIFIED
  | PERMISSIONSHIP_NO_PERMISSION
  | PERMISSIONSHIP_HAS_PERMISSION
  | PERMISSIONSHIP_CONDITIONAL_PERMISSION

record CheckPermissionRequest =
  resource :: ObjectReference
  permission :: string
  subject :: SubjectReference
  consistency :: "Consistency option"

record CheckPermissionResponse =
  permissionship :: Permissionship

record BulkCheckPermissionRequestItem =
  resource :: ObjectReference
  permission :: string
  subject :: SubjectReference

record BulkCheckPermissionRequest =
  consistency :: "Consistency option"
  items :: "BulkCheckPermissionRequestItem list"

record BulkCheckPermissionResponseItem =
  permissionship :: Permissionship

record BulkCheckPermissionPair =
  request :: BulkCheckPermissionRequestItem
  item :: BulkCheckPermissionResponseItem

record BulkCheckPermissionResponse =
  pairs :: "BulkCheckPermissionPair list"

datatype Operation =
    OPERATION_UNSPECIFIED
  | OPERATION_CREATE
  | OPERATION_TOUCH
  | OPERATION_DELETE

record Relationship =
  resource :: ObjectReference
  relation :: string
  subject :: SubjectReference

record RelationshipUpdate =
  operation :: Operation
  relationship :: Relationship

record WriteRelationshipsRequest =
  updates :: "RelationshipUpdate list"

text \<open>
  The write response is a message of the remote interface. Its field \<open>written_at\<close> is
  set or unset in the message that arrives (\<open>written_at_field\<close>). Reading the attribute
  of a message does not fail: an unset message field reads as its default instance, a
  \<open>ZedToken\<close> whose \<open>token\<close> is the empty string. So \<open>response.written_at.token\<close>, which
  \<open>update\<close> reads inside its \<open>try\<close>, always yields a string.
\<close>

record ZedToken =
  token :: string

record WriteRelationshipsResponse =
  written_at_field :: "ZedToken option"

definition written_at :: "WriteRelationshipsResponse \<Rightarrow> ZedToken" where
  "written_at response =
     (case written_at_field response of None \<Rightarrow> \<lparr>token = ''''\<rparr> | Some z \<Rightarrow> z)"

definition read_written_at_token :: "WriteRelationshipsResponse \<Rightarrow> error + string" where
  "read_written_at_token response = Inr (token (written_at response))"

record ExpandPermissionTreeRequest =
  resource :: ObjectReference
  permission :: string
  consistency :: "Consistency option"

record DirectSubjectSet =
  subjects :: "SubjectReference list"

text \<open>
  A node of the expansion tree. \<open>_parse_subjects\<close> asks \<open>hasattr(root, "leaf")\<close>,
  \<open>hasattr(root, "intermediate")\<close> and \<open>hasattr(root.intermediate, "children")\<close>: each of
  the three is an option here, \<open>None\<close> when the attribute is missing.
\<close>

datatype PermissionRelationshipTree =
  PermissionRelationshipTree (leaf: "DirectSubjectSet option")
    (intermediate: "AlgebraicSubjectSet option")
and AlgebraicSubjectSet =
  AlgebraicSubjectSet (children: "PermissionRelationshipTree list option")

record ExpandPermissionTreeResponse =
  tree_root :: "PermissionRelationshipTree option"

text \<open>
  The remote client. A call takes the state \<open>'w\<close> of the remote side (the service and
  the channel), and returns the response or the exception it raises, with the new state.
\<close>

type_synonym ('q, 'a, 'w) rpc = "'q \<Rightarrow> 'w \<Rightarrow> (error + 'a) \<times> 'w"

record 'w AsyncClient =
  CheckPermission :: "(CheckPermissionRequest, CheckPermissionResponse, 'w) rpc"
  BulkCheckPermission :: "(BulkCheckPermissionRequest, BulkCheckPermissionResponse, 'w) rpc"
  WriteRelationships :: "(WriteRelationshipsRequest, WriteRelationshipsResponse, 'w) rpc"
  ExpandPermissionTree :: "(ExpandPermissionTreeRequest, ExpandPermissionTreeResponse, 'w) rpc"

section \<open>The client (authzed\_grpc.py) and the base class (authzed\_base.py)\<close>

subsection \<open>check and is\_allowed\<close>

definition check ::
  "'w AsyncClient \<Rightarrow> CheckRequest \<Rightarrow> bool \<Rightarrow> bool \<Rightarrow> 'w \<Rightarrow> (error + Access) \<times> 'w" where
  "check client req full_consistent minimize_latency w =
     (let subject_reference =
            \<lparr>object = \<lparr>object_type = CheckRequest.subject_type req,
                        object_id = str_py (IStr (CheckRequest.subject_id req))\<rparr>,
             optional_relation = ''''\<rparr>;
          consistency =
            (if full_consistent then Some (Consistency_fully_consistent True)
             else if minimize_latency then Some (Consistency_minimize_latency True)
             else None);
          check_permission_request =
            \<lparr>CheckPermissionRequest.resource =
               \<lparr>object_type = CheckRequest.resource_type req,
                object_id = str_py (IStr (CheckRequest.resource_id req))\<rparr>,
             permission = CheckRequest.permission req,
             subject = subject_reference,
             consistency = consistency\<rparr>
      in case CheckPermission client check_permission_request w of
           (Inl e, w') \<Rightarrow> (Inl e, w')
         | (Inr response, w') \<Rightarrow>
             (if CheckPermissionResponse.permissionship response = PERMISSIONSHIP_HAS_PERMISSION
              then Inr allow else Inr forbid, w'))"

text \<open>
  \<open>AuthzedGrpc.is_allowed\<close> hands its keyword arguments to \<open>check\<close> as they are (a flag
  left out is \<open>False\<close>). \<open>BaseAuthzed.is_allowed\<close>, which it overrides, passes only
  \<open>minimize_latency\<close> when that flag is set and only \<open>full_consistent\<close> otherwise; it is
  given the \<open>check\<close> of the subclass it runs in.
\<close>

definition is_allowed ::
  "'w AsyncClient \<Rightarrow> CheckRequest \<Rightarrow> bool \<Rightarrow> bool \<Rightarrow> 'w \<Rightarrow> (error + bool) \<times> 'w" where
  "is_allowed client req full_consistent minimize_latency w =
     (case check client req full_consistent minimize_latency w of
        (Inl e, w') \<Rightarrow> (Inl e, w')
      | (Inr check_result, w') \<Rightarrow> (Inr (is_allowed_Access check_result), w'))"

definition BaseAuthzed_is_allowed ::
  "(CheckRequest \<Rightarrow> bool \<Rightarrow> bool \<Rightarrow> 'w \<Rightarrow> (error + Access) \<times> 'w) \<Rightarrow>
   CheckRequest \<Rightarrow> bool \<Rightarrow> bool \<Rightarrow> 'w \<Rightarrow> (error + bool) \<times> 'w" where
  "BaseAuthzed_is_allowed self_check req full_consistent minimize_latency w =
     (case (if minimize_latency then self_check req False minimize_latency w
            else self_check req full_consistent False w) of
        (Inl e, w') \<Rightarrow> (Inl e, w')
      | (Inr a, w') \<Rightarrow> (Inr (is_allowed_Access a), w'))"

subsection \<open>check\_many\<close>

text \<open>
  A Python dictionary is an association list with distinct keys in insertion order:
  \<open>d[k] = v\<close> is \<open>AList.update k v d\<close>, which replaces the value of a key already there
  and appends a new key at the end.
\<close>

definition bulk_item :: "CheckRequest \<Rightarrow> BulkCheckPermissionRequestItem" where
  "bulk_item req =
     (let object_reference =
            \<lparr>object_type = CheckRequest.resource_type req,
             object_id = str_py (IStr (CheckRequest.resource_id req))\<rparr>;
          subject_reference =
            \<lparr>object = \<lparr>object_type = CheckRequest.subject_type req,
                        object_id = str_py (IStr (CheckRequest.subject_id req))\<rparr>,
             optional_relation = ''''\<rparr>
      in \<lparr>BulkCheckPermissionRequestItem.resource = object_reference,
          permission = CheckRequest.permission req,
          subject = subject_reference\<rparr>)"

definition apply_pair ::
  "BulkCheckPermissionPair \<Rightarrow> (CheckRequest \<times> Access) list \<Rightarrow> (CheckRequest \<times> Access) list" where
  "apply_pair check_result result_response =
     (if BulkCheckPermissionResponseItem.permissionship (item check_result)
           = PERMISSIONSHIP_HAS_PERMISSION
      then
        (let object_id =
               ObjectReference.object_id
                 (BulkCheckPermissionRequestItem.resource (request check_result));
             subject_id =
               ObjectReference.object_id
                 (object (BulkCheckPermissionRequestItem.subject (request check_result)));
             check_request =
               new_CheckRequest
                 (object_type
                    (object (BulkCheckPermissionRequestItem.subject (request check_result))))
                 (IStr subject_id)
                 (object_type (BulkCheckPermissionRequestItem.resource (request check_result)))
                 (IStr object_id)
                 (BulkCheckPermissionRequestItem.permission (request check_result))
         in AList.update check_request allow result_response)
      else result_response)"

definition check_many ::
  "'w AsyncClient \<Rightarrow> CheckRequest list \<Rightarrow> bool \<Rightarrow> bool \<Rightarrow> 'w \<Rightarrow>
   (error + (CheckRequest \<times> Access) list) \<times> 'w" where
  "check_many client requests full_consistent minimize_latency w =
     (if requests = [] then (Inr [], w)
      else
        (let bulk_check_permission_request = map bulk_item requests;
             consistency =
               (if full_consistent then Some (Consistency_fully_consistent True)
                else if minimize_latency then Some (Consistency_minimize_latency True)
                else None)
         in case BulkCheckPermission client
                   \<lparr>BulkCheckPermissionRequest.consistency = consistency,
                    items = bulk_check_permission_request\<rparr> w of
              (Inl e, w') \<Rightarrow> (Inl e, w')
            | (Inr response, w') \<Rightarrow>
                (let result_response = fold (\<lambda>c d. AList.update c forbid d) requests []
                 in (Inr (fold apply_pair (pairs response) result_response), w'))))"

text \<open>
  \<open>AuthzedGrpc.is_allowed_many\<close> passes both flags on to \<open>check_many\<close>;
  \<open>BaseAuthzed.is_allowed_many\<close>, which it overrides, passes only \<open>minimize_latency\<close> when
  that flag is set and only \<open>full_consistent\<close> otherwise. Both map \<open>Access.is_allowed\<close> over
  the items of the mapping.
\<close>

definition is_allowed_many ::
  "'w AsyncClient \<Rightarrow> CheckRequest list \<Rightarrow> bool \<Rightarrow> bool \<Rightarrow> 'w \<Rightarrow>
   (error + (CheckRequest \<times> bool) list) \<times> 'w" where
  "is_allowed_many client requests full_consistent minimize_latency w =
     (case check_many client requests full_consistent minimize_latency w of
        (Inl e, w') \<Rightarrow> (Inl e, w')
      | (Inr results_list, w') \<Rightarrow>
          (Inr (map (\<lambda>(req, response). (req, is_allowed_Access response)) results_list), w'))"

definition BaseAuthzed_is_allowed_many ::
  "(CheckRequest list \<Rightarrow> bool \<Rightarrow> bool \<Rightarrow> 'w \<Rightarrow> (error + (CheckRequest \<times> Access) list) \<times> 'w) \<Rightarrow>
   CheckRequest list \<Rightarrow> bool \<Rightarrow> bool \<Rightarrow> 'w \<Rightarrow> (error + (CheckRequest \<times> bool) list) \<times> 'w" where
  "BaseAuthzed_is_allowed_many self_check_many requests full_consistent minimize_latency w =
     (case (if minimize_latency then self_check_many requests False minimize_latency w
            else self_check_many requests full_consistent False w) of
        (Inl e, w') \<Rightarrow> (Inl e, w')
      | (Inr results_list, w') \<Rightarrow>
          (Inr (map (\<lambda>(req, response). (req, is_allowed_Access response)) results_list), w'))"

subsection \<open>update, grant and revoke\<close>

fun relation_update_type :: "RelationUpdateType \<Rightarrow> error + Operation" where
  "relation_update_type grant = Inr OPERATION_TOUCH"
| "relation_update_type revoke = Inr OPERATION_DELETE"
| "relation_update_type create = Inl (NotImplementedError ''Relation update type not defined.'')"

text \<open>
  The loop of \<open>update\<close> over its argument: it stops at the first element that raises,
  and otherwise yields the list handed to \<open>WriteRelationshipsRequest\<close>.
\<close>

fun relationship_updates :: "RelationUpdateRequest list \<Rightarrow> error + RelationshipUpdate list" where
  "relationship_updates [] = Inr []"
| "relationship_updates (u # us) =
     (case update_type u of
        None \<Rightarrow> Inl (ValueError ''update_type cannot be None'')
      | Some t \<Rightarrow>
          (case relation_update_type t of
             Inl e \<Rightarrow> Inl e
           | Inr opn \<Rightarrow>
               (let relationship_update =
                      \<lparr>operation = opn,
                       relationship =
                         \<lparr>Relationship.resource =
                            \<lparr>object_type = RelationUpdateRequest.resource_type u,
                             object_id = str_py (RelationUpdateRequest.resource_id u)\<rparr>,
                          relation = RelationUpdateRequest.relation u,
                          subject =
                            \<lparr>object =
                               \<lparr>object_type = RelationUpdateRequest.subject_type u,
                                object_id = str_py (RelationUpdateRequest.subject_id u)\<rparr>,
                             optional_relation = subject_relation u\<rparr>\<rparr>\<rparr>
                in case relationship_updates us of
                     Inl e \<Rightarrow> Inl e
                   | Inr rest \<Rightarrow> Inr (relationship_update # rest))))"

definition update ::
  "'w AsyncClient \<Rightarrow> RelationUpdateRequest list \<Rightarrow> 'w \<Rightarrow> (error + unit) \<times> 'w" where
  "update client upds w =
     (case relationship_updates upds of
        Inl e \<Rightarrow> (Inl e, w)
      | Inr rus \<Rightarrow>
          (case WriteRelationships client \<lparr>updates = rus\<rparr> w of
             (Inl e, w') \<Rightarrow> (Inl e, w')
           | (Inr response, w') \<Rightarrow>
               (case read_written_at_token response of
                  Inl (AttributeError m) \<Rightarrow>
                    (Inl (RuntimeError ''Invalid authzed response.''), w')
                | Inl e \<Rightarrow> (Inl e, w')
                | Inr tok \<Rightarrow> (Inr (), w'))))"

text \<open>
  \<open>BaseAuthzed.grant\<close> and \<open>BaseAuthzed.revoke\<close> are \<open>grant_rel\<close> and \<open>revoke_rel\<close> here (the
  plain names are the values of \<open>RelationUpdateType\<close>); both build one
  \<open>RelationUpdateRequest\<close> with the type given and call \<open>update\<close>, as \<open>grant_many\<close> and
  \<open>revoke_many\<close> do with the list they are given.
\<close>

definition grant_rel ::
  "'w AsyncClient \<Rightarrow> string \<Rightarrow> ident \<Rightarrow> string \<Rightarrow> string \<Rightarrow> ident \<Rightarrow> string \<Rightarrow> 'w \<Rightarrow>
   (error + unit) \<times> 'w" where
  "grant_rel client rt rid rel st sid srel w =
     update client
       [new_RelationUpdateRequest st sid rt rid rel (Passed srel) (Passed (Some grant))] w"

definition revoke_rel ::
  "'w AsyncClient \<Rightarrow> string \<Rightarrow> ident \<Rightarrow> string \<Rightarrow> string \<Rightarrow> ident \<Rightarrow> string \<Rightarrow> 'w \<Rightarrow>
   (error + unit) \<times> 'w" where
  "revoke_rel client rt rid rel st sid srel w =
     update client
       [new_RelationUpdateRequest st sid rt rid rel (Passed srel) (Passed (Some revoke))] w"

definition grant_many ::
  "'w AsyncClient \<Rightarrow> RelationUpdateRequest list \<Rightarrow> 'w \<Rightarrow> (error + unit) \<times> 'w" where
  "grant_many client upds w = update client upds w"

definition revoke_many ::
  "'w AsyncClient \<Rightarrow> RelationUpdateRequest list \<Rightarrow> 'w \<Rightarrow> (error + unit) \<times> 'w" where
  "revoke_many client upds w = update client upds w"

subsection \<open>resources\_many\<close>

text \<open>
  \<open>resources_many\<close> creates one task per request and waits for them with one timeout.
  What a task is when the wait returns is the scheduler's answer, not this layer's: it
  is a parameter, \<open>spawn i args\<close> for the task created \<open>i\<close>-th with the arguments \<open>args\<close> of
  \<open>self.resources\<close>. A task is then still running, cancelled, finished by an exception
  or finished with a list of identifiers. \<open>asyncio.wait\<close> returns when the timeout
  passes (it does not raise), and nothing runs between its return and the loop that
  reads the tasks, so each task is read in the state the wait left it in.
  \<open>Task.exception()\<close> raises \<open>CancelledError\<close> on a cancelled task.
\<close>

datatype task = Pending | Cancelled | Raised error | Returned "string list"

type_synonym lookup_args = "string \<times> string \<times> string \<times> ident \<times> int option \<times> string option"

text \<open>\<open>Task.done()\<close>, \<open>Task.exception()\<close> and \<open>Task.result()\<close>.\<close>

fun task_done :: "task \<Rightarrow> bool" where
  "task_done Pending = False"
| "task_done _ = True"

fun task_exception :: "task \<Rightarrow> error + error option" where
  "task_exception Pending = Inl (RuntimeError ''Exception is not set.'')"
| "task_exception Cancelled = Inl CancelledError"
| "task_exception (Raised e) = Inr (Some e)"
| "task_exception (Returned xs) = Inr None"

fun task_result :: "task \<Rightarrow> error + string list" where
  "task_result Pending = Inl (RuntimeError ''Result is not ready.'')"
| "task_result Cancelled = Inl CancelledError"
| "task_result (Raised e) = Inl e"
| "task_result (Returned xs) = Inr xs"

datatype log_record = LogError string | LogException error

text \<open>The logger's records, and the requests whose task \<open>resources_many\<close> cancelled.\<close>

record run_state =
  logged :: "log_record list"
  cancel_called :: "ResourcesRequest list"

fun collect ::
  "(ResourcesRequest \<times> task) list \<Rightarrow> (ResourcesRequest \<times> string list) list \<Rightarrow> run_state \<Rightarrow>
   (error + (ResourcesRequest \<times> string list) list) \<times> run_state" where
  "collect [] res s = (Inr res, s)"
| "collect ((req, t) # rest) res s =
     (if \<not> task_done t then
        collect rest (AList.update req [] res)
          (s\<lparr>logged := logged s @ [LogError ''Authzed resources request task not finished.''],
             cancel_called := cancel_called s @ [req]\<rparr>)
      else
        (case task_exception t of
           Inl e \<Rightarrow> (Inl e, s)
         | Inr (Some e) \<Rightarrow>
             collect rest (AList.update req [] res) (s\<lparr>logged := logged s @ [LogException e]\<rparr>)
         | Inr None \<Rightarrow>
             (case task_result t of
                Inl e \<Rightarrow> (Inl e, s)
              | Inr xs \<Rightarrow> collect rest (AList.update req xs res) s)))"

definition resources_many ::
  "(nat \<Rightarrow> lookup_args \<Rightarrow> task) \<Rightarrow> ResourcesRequest list \<Rightarrow> int option \<Rightarrow> string option \<Rightarrow>
   run_state \<Rightarrow> (error + (ResourcesRequest \<times> string list) list) \<times> run_state" where
  "resources_many spawn requests limit cursor s =
     (let tasks =
            fold (\<lambda>(i, req) d.
                    AList.update req
                      (spawn i (ResourcesRequest.resource_type req,
                                ResourcesRequest.permission req,
                                ResourcesRequest.subject_type req,
                                ResourcesRequest.subject_id req, limit, cursor)) d)
              (zip [0..<length requests] requests) []
      in collect tasks [] s)"

subsection \<open>subjects\<close>

fun parse_subjects :: "PermissionRelationshipTree \<Rightarrow> string \<Rightarrow> string list" where
  "parse_subjects (PermissionRelationshipTree l i) st =
     (case l of
        None \<Rightarrow> []
      | Some lf \<Rightarrow>
          map (\<lambda>sub. object_id (object sub))
            (filter (\<lambda>sub. object_type (object sub) = st) (subjects lf))) @
     (case i of
        None \<Rightarrow> []
      | Some (AlgebraicSubjectSet None) \<Rightarrow> []
      | Some (AlgebraicSubjectSet (Some cs)) \<Rightarrow>
          concat (map (\<lambda>c. parse_subjects c st) cs))"

text \<open>
  \<open>BaseAuthzed.subjects\<close> (\<open>subjects_of\<close> here, \<open>subjects\<close> being a field of the leaf)
  collects what \<open>subjects_generator\<close> yields. The generator sends
  one expansion request and walks \<open>tree_root\<close>; a response without one is the
  \<open>AttributeError\<close> it turns into a \<open>RuntimeError\<close>.
\<close>

definition subjects_of ::
  "'w AsyncClient \<Rightarrow> string \<Rightarrow> ident \<Rightarrow> string \<Rightarrow> string \<Rightarrow> bool \<Rightarrow> 'w \<Rightarrow>
   (error + string list) \<times> 'w" where
  "subjects_of client rt rid perm st full_consistent w =
     (let expand_permission_tree_request =
            \<lparr>ExpandPermissionTreeRequest.resource =
               \<lparr>object_type = rt, object_id = str_py rid\<rparr>,
             permission = perm,
             consistency =
               (if full_consistent then Some (Consistency_fully_consistent True) else None)\<rparr>
      in case ExpandPermissionTree client expand_permission_tree_request w of
           (Inl e, w') \<Rightarrow> (Inl e, w')
         | (Inr permission_tree_response, w') \<Rightarrow>
             (case tree_root permission_tree_response of
                None \<Rightarrow> (Inl (RuntimeError ''Invalid permissions expand response.''), w')
              | Some root \<Rightarrow> (Inr (parse_subjects root st), w')))"

text \<open>
  The claim about \<open>subjects\<close>, in its own words: the nodes of the tree in depth-first,
  left-to-right order, the subjects listed at the leaves among them, and of those the
  identifiers whose subject type is the filter.
\<close>

fun nodes_dfs :: "PermissionRelationshipTree \<Rightarrow> PermissionRelationshipTree list" where
  "nodes_dfs (PermissionRelationshipTree l i) =
     PermissionRelationshipTree l i #
     (case i of
        None \<Rightarrow> []
      | Some (AlgebraicSubjectSet None) \<Rightarrow> []
      | Some (AlgebraicSubjectSet (Some cs)) \<Rightarrow> concat (map nodes_dfs cs))"

definition leaf_subjects :: "PermissionRelationshipTree \<Rightarrow> SubjectReference list" where
  "leaf_subjects n = (case leaf n of None \<Rightarrow> [] | Some lf \<Rightarrow> subjects lf)"

definition spec_subjects :: "PermissionRelationshipTree \<Rightarrow> string \<Rightarrow> string list" where
  "spec_subjects root st =
     map (\<lambda>sub. object_id (object sub))
       (filter (\<lambda>sub. object_type (object sub) = st)
          (concat (map leaf_subjects (nodes_dfs root))))"

section \<open>A recording remote, for running the client on concrete inputs\<close>

text \<open>
  A remote side whose state is the list of calls it has received: each call appends
  itself and is answered by a fixed response.
\<close>

datatype rpc_call =
    Call_CheckPermission CheckPermissionRequest
  | Call_BulkCheckPermission BulkCheckPermissionRequest
  | Call_WriteRelationships WriteRelationshipsRequest
  | Call_ExpandPermissionTree ExpandPermissionTreeRequest

definition recording_client ::
  "CheckPermissionResponse \<Rightarrow> BulkCheckPermissionResponse \<Rightarrow> WriteRelationshipsResponse \<Rightarrow>
   ExpandPermissionTreeResponse \<Rightarrow> rpc_call list AsyncClient" where
  "recording_client r1 r2 r3 r4 =
     \<lparr>CheckPermission = (\<lambda>q w. (Inr r1, w @ [Call_CheckPermission q])),
      BulkCheckPermission = (\<lambda>q w. (Inr r2, w @ [Call_BulkCheckPermission q])),
      WriteRelationships = (\<lambda>q w. (Inr r3, w @ [Call_WriteRelationships q])),
      ExpandPermissionTree = (\<lambda>q w. (Inr r4, w @ [Call_ExpandPermissionTree q]))\<rparr>"

fun call_consistency :: "rpc_call \<Rightarrow> Consistency option" where
  "call_consistency (Call_CheckPermission q) = CheckPermissionRequest.consistency q"
| "call_consistency (Call_BulkCheckPermission q) = BulkCheckPermissionRequest.consistency q"
| "call_consistency (Call_WriteRelationships q) = None"
| "call_consistency (Call_ExpandPermissionTree q) = ExpandPermissionTreeRequest.consistency q"

definition doc1_view_user :: "ident \<Rightarrow> CheckRequest" where
  "doc1_view_user uid = new_CheckRequest ''user'' uid ''doc'' (IStr ''1'') ''view''"

definition owner_update :: "RelationUpdateType option arg \<Rightarrow> RelationUpdateRequest" where
  "owner_update ut =
     new_RelationUpdateRequest ''user'' (IInt 1) ''doc'' (IInt 1) ''owner'' Omitted ut"

definition client_answering ::
  "Permissionship \<Rightarrow> BulkCheckPermissionPair list \<Rightarrow> ZedToken option \<Rightarrow>
   PermissionRelationshipTree option \<Rightarrow> rpc_call list AsyncClient" where
  "client_answering p ps z t =
     recording_client \<lparr>CheckPermissionResponse.permissionship = p\<rparr> \<lparr>pairs = ps\<rparr>
       \<lparr>written_at_field = z\<rparr> \<lparr>tree_root = t\<rparr>"

definition echo_pair :: "CheckRequest \<Rightarrow> Permissionship \<Rightarrow> BulkCheckPermissionPair" where
  "echo_pair r p =
     \<lparr>request = bulk_item r, item = \<lparr>BulkCheckPermissionResponseItem.permissionship = p\<rparr>\<rparr>"

definition subject_ref :: "string \<Rightarrow> string \<Rightarrow> SubjectReference" where
  "subject_ref t i = \<lparr>object = \<lparr>object_type = t, object_id = i\<rparr>, optional_relation = ''''\<rparr>"

definition leaf_node :: "SubjectReference list \<Rightarrow> PermissionRelationshipTree" where
  "leaf_node subs = PermissionRelationshipTree (Some \<lparr>subjects = subs\<rparr>) None"

definition sample_tree :: PermissionRelationshipTree where
  "sample_tree =
     PermissionRelationshipTree None
       (Some (AlgebraicSubjectSet (Some
          [leaf_node [subject_ref ''user'' ''7'', subject_ref ''group'' ''g1''],
           PermissionRelationshipTree None
             (Some (AlgebraicSubjectSet (Some
                [leaf_node [subject_ref ''user'' ''3''],
                 leaf_node [subject_ref ''team'' ''9'', subject_ref ''user'' ''4'']]))),
           leaf_node [subject_ref ''user'' ''1'']])))"

definition sample_resources_request :: "string \<Rightarrow> ResourcesRequest" where
  "sample_resources_request perm =
     \<lparr>ResourcesRequest.subject_type = ''user'', subject_id = IInt 1,
      resource_type = ''doc'', permission = perm\<rparr>"

definition one_cancelled_spawn :: "nat \<Rightarrow> lookup_args \<Rightarrow> task" where
  "one_cancelled_spawn i a =
     (if i = 0 then Returned [''d1'', ''d2'']
      else if i = 1 then Cancelled
      else Returned [''d3''])"

definition sample_spawn :: "nat \<Rightarrow> lookup_args \<Rightarrow> task" where
  "sample_spawn i a =
     (if i = 0 then Returned [''d1'', ''d2'']
      else if i = 1 then Pending
      else Raised (RpcError ''unavailable''))"

section \<open>The claims in the specification's words\<close>

text \<open>
  A pair of the bulk response reports permission for a request when its permissionship
  is \<open>HAS_PERMISSION\<close> and the tuple it echoes (resource type and id, subject type and
  id, permission) is the request's.
\<close>

definition reports_allow :: "BulkCheckPermissionPair \<Rightarrow> CheckRequest \<Rightarrow> bool" where
  "reports_allow p k =
     (BulkCheckPermissionResponseItem.permissionship (item p) = PERMISSIONSHIP_HAS_PERMISSION
      \<and> object_type (BulkCheckPermissionRequestItem.resource (request p))
            = CheckRequest.resource_type k
      \<and> object_id (BulkCheckPermissionRequestItem.resource (request p))
            = CheckRequest.resource_id k
      \<and> object_type (object (BulkCheckPermissionRequestItem.subject (request p)))
            = CheckRequest.subject_type k
      \<and> object_id (object (BulkCheckPermissionRequestItem.subject (request p)))
            = CheckRequest.subject_id k
      \<and> BulkCheckPermissionRequestItem.permission (request p) = CheckRequest.permission k)"

text \<open>What a task contributes to the result of \<open>resources_many\<close>, as the claim has it.\<close>

fun contribution :: "task \<Rightarrow> string list" where
  "contribution (Returned xs) = xs"
| "contribution _ = []"

text \<open>
  The arguments \<open>resources_many\<close> gives to \<open>self.resources\<close> for a request, and what the
  loop over the tasks logs for a task.
\<close>

definition resources_args :: "ResourcesRequest \<Rightarrow> int option \<Rightarrow> string option \<Rightarrow> lookup_args" where
  "resources_args req limit cursor =
     (ResourcesRequest.resource_type req, ResourcesRequest.permission req,
      ResourcesRequest.subject_type req, ResourcesRequest.subject_id req, limit, cursor)"

fun task_log :: "task \<Rightarrow> log_record list" where
  "task_log Pending = [LogError ''Authzed resources request task not finished.'']"
| "task_log (Raised e) = [LogException e]"
| "task_log _ = []"

section \<open>Identifier normalisation and the request constructors\<close>

lemma str_int_42: "str_int 42 = ''42''"
  by (simp add: str_int_def str_nat.simps)

text \<open>
  Claim C7. A \<open>CheckRequest\<close> built with integer identifiers and one built with their
  string forms are the same value: the stored identifiers are \<open>str\<close> of what was given,
  so the two compare equal, hash equal, and give the same bulk item and the same
  \<open>check\<close> call on the wire; in particular \<open>resource_id=42\<close> and \<open>resource_id="42"\<close>.
\<close>

theorem CheckRequest_identifier_normalization:
  "new_CheckRequest st (IInt s) rt (IInt r) p
     = new_CheckRequest st (IStr (str_int s)) rt (IStr (str_int r)) p
   \<and> hash_CheckRequest h (new_CheckRequest st (IInt s) rt (IInt r) p)
     = hash_CheckRequest h (new_CheckRequest st (IStr (str_int s)) rt (IStr (str_int r)) p)
   \<and> bulk_item (new_CheckRequest st (IInt s) rt (IInt r) p)
     = bulk_item (new_CheckRequest st (IStr (str_int s)) rt (IStr (str_int r)) p)
   \<and> check client (new_CheckRequest st (IInt s) rt (IInt r) p) fc ml w
     = check client (new_CheckRequest st (IStr (str_int s)) rt (IStr (str_int r)) p) fc ml w
   \<and> CheckRequest.subject_id (new_CheckRequest st sid rt rid p) = str_py sid
   \<and> CheckRequest.resource_id (new_CheckRequest st sid rt rid p) = str_py rid
   \<and> new_CheckRequest ''user'' (IStr ''1'') ''doc'' (IInt 42) ''view''
     = new_CheckRequest ''user'' (IStr ''1'') ''doc'' (IStr ''42'') ''view''"
  by (simp add: new_CheckRequest_def subject_id_validator_def object_id_validator_def
      str_int_42)

text \<open>
  Claim C8, as stated: every value built by \<open>RelationUpdateGrantRequest\<close> has
  \<open>update_type = grant\<close>. It fails when the caller passes \<open>update_type\<close>: the field is a
  constructor argument with a default, and the value passed is stored.
\<close>

theorem grant_request_update_type_counterexample:
  "map_sum id update_type
     (new_RelationUpdateGrantRequest ''user'' (IStr ''1'') ''doc'' (IStr ''1'') ''owner''
        Omitted (Passed (Some revoke))) = Inr (Some revoke)
   \<and> Some revoke \<noteq> Some grant"
  by (simp add: new_RelationUpdateGrantRequest_def new_RelationUpdateRequest_def)

text \<open>
  Claim C8, amended. A value built by the grant (respectively revoke) variant never has
  a null \<open>update_type\<close>: a null argument is refused at construction. When the caller
  leaves \<open>update_type\<close> out the field is \<open>grant\<close> (respectively \<open>revoke\<close>); when the caller
  passes a value, that value is stored.
\<close>

theorem grant_revoke_request_update_type:
  "(case new_RelationUpdateGrantRequest st sid rt rid rel srel ut of
      Inl e \<Rightarrow> ut = Passed None
    | Inr r \<Rightarrow>
        update_type r \<noteq> None
        \<and> update_type r = (case ut of Omitted \<Rightarrow> Some grant | Passed u \<Rightarrow> u))
   \<and> (case new_RelationUpdateRevokeRequest st sid rt rid rel srel ut of
      Inl e \<Rightarrow> ut = Passed None
    | Inr r \<Rightarrow>
        update_type r \<noteq> None
        \<and> update_type r = (case ut of Omitted \<Rightarrow> Some revoke | Passed u \<Rightarrow> u))"
  by (simp add: new_RelationUpdateGrantRequest_def new_RelationUpdateRevokeRequest_def
      new_RelationUpdateRequest_def split: arg.splits option.splits)

theorem grant_revoke_request_update_type_witness:
  "map_sum id update_type
     (new_RelationUpdateGrantRequest ''user'' (IInt 1) ''doc'' (IInt 1) ''owner''
        Omitted Omitted) = Inr (Some grant)
   \<and> map_sum id update_type
     (new_RelationUpdateRevokeRequest ''user'' (IInt 1) ''doc'' (IInt 1) ''owner''
        Omitted Omitted) = Inr (Some revoke)"
  using grant_revoke_request_update_type
    [where st = "''user''" and sid = "IInt 1" and rt = "''doc''" and rid = "IInt 1"
       and rel = "''owner''" and srel = Omitted and ut = Omitted]
  by (simp split: sum.splits)

section \<open>check\_many\<close>

text \<open>
  Claim C9. On the empty list \<open>check_many\<close> returns the empty mapping and the remote
  side is left as it was, whatever the client would have done with a call.
\<close>

theorem check_many_empty:
  "check_many client [] full_consistent minimize_latency w = (Inr [], w)"
  by (simp add: check_many_def)

lemma map_of_forbid_fold:
  "map_of (fold (\<lambda>c d. AList.update c v d) rs d0) k =
     (if k \<in> set rs then Some v else map_of d0 k)"
  by (induction rs arbitrary: d0) (simp_all add: update_conv')

lemma distinct_forbid_fold:
  "distinct (map fst d0) \<Longrightarrow> distinct (map fst (fold (\<lambda>c d. AList.update c v d) rs d0))"
  by (induction rs arbitrary: d0) (simp_all add: distinct_update)

lemma keys_forbid_fold:
  "fst ` set (fold (\<lambda>c d. AList.update c v d) rs d0) = set rs \<union> fst ` set d0"
  by (induction rs arbitrary: d0) (auto simp: dom_update)

lemma apply_pair_cases:
  "apply_pair p d =
     (if BulkCheckPermissionResponseItem.permissionship (item p) = PERMISSIONSHIP_HAS_PERMISSION
      then AList.update
        \<lparr>CheckRequest.subject_type =
           object_type (object (BulkCheckPermissionRequestItem.subject (request p))),
         subject_id = object_id (object (BulkCheckPermissionRequestItem.subject (request p))),
         resource_type = object_type (BulkCheckPermissionRequestItem.resource (request p)),
         resource_id = object_id (BulkCheckPermissionRequestItem.resource (request p)),
         permission = BulkCheckPermissionRequestItem.permission (request p)\<rparr> allow d
      else d)"
  by (simp add: apply_pair_def new_CheckRequest_def subject_id_validator_def
      object_id_validator_def Let_def)

lemma map_of_apply_pair:
  "map_of (apply_pair p d) k = (if reports_allow p k then Some allow else map_of d k)"
  by (cases k) (auto simp: apply_pair_cases reports_allow_def update_conv')

lemma distinct_apply_pair:
  "distinct (map fst d) \<Longrightarrow> distinct (map fst (apply_pair p d))"
  by (simp add: apply_pair_cases distinct_update)

lemma keys_apply_pair: "fst ` set d \<subseteq> fst ` set (apply_pair p d)"
  by (auto simp: apply_pair_cases dom_update)

lemma map_of_fold_apply_pair:
  "map_of (fold apply_pair ps d) k =
     (if \<exists>p\<in>set ps. reports_allow p k then Some allow else map_of d k)"
  by (induction ps arbitrary: d) (auto simp: map_of_apply_pair)

lemma distinct_fold_apply_pair:
  "distinct (map fst d) \<Longrightarrow> distinct (map fst (fold apply_pair ps d))"
  by (induction ps arbitrary: d) (simp_all add: distinct_apply_pair)

lemma keys_fold_apply_pair: "fst ` set d \<subseteq> fst ` set (fold apply_pair ps d)"
proof (induction ps arbitrary: d)
  case Nil
  then show ?case by simp
next
  case (Cons p ps)
  have "fst ` set d \<subseteq> fst ` set (apply_pair p d)" by (rule keys_apply_pair)
  also have "\<dots> \<subseteq> fst ` set (fold apply_pair ps (apply_pair p d))" by (rule Cons.IH)
  finally show ?case by simp
qed

lemma new_keys_allowed:
  assumes "k \<in> fst ` set (fold apply_pair ps d)" and "k \<notin> fst ` set d"
  shows "\<exists>p\<in>set ps. reports_allow p k"
proof -
  from assms(1) have "map_of (fold apply_pair ps d) k \<noteq> None"
    by (simp add: map_of_eq_None_iff)
  moreover from assms(2) have "map_of d k = None" by (simp add: map_of_eq_None_iff)
  ultimately show ?thesis by (auto simp: map_of_fold_apply_pair split: if_splits)
qed

lemma count_list_distinct: "distinct xs \<Longrightarrow> x \<in> set xs \<Longrightarrow> count_list xs x = 1"
  by (induction xs) auto

lemma check_many_run:
  assumes "requests \<noteq> []"
    and "BulkCheckPermission client
           \<lparr>BulkCheckPermissionRequest.consistency =
              (if fc then Some (Consistency_fully_consistent True)
               else if ml then Some (Consistency_minimize_latency True) else None),
            items = map bulk_item requests\<rparr> w = (Inr response, w')"
  shows "check_many client requests fc ml w =
           (Inr (fold apply_pair (pairs response)
                   (fold (\<lambda>c d. AList.update c forbid d) requests [])), w')"
  using assms by (simp add: check_many_def Let_def)

text \<open>
  Claim C1. For a non-empty list of requests whose bulk call the remote side answers,
  \<open>check_many\<close> returns a mapping in which every input request is a key exactly once,
  and every key is mapped to \<open>allow\<close> if some pair of the response reports permission
  for exactly its tuple, and to \<open>forbid\<close> otherwise, also when the response has no pair
  for it at all.
\<close>

theorem check_many_total_forbid_by_default:
  assumes ne: "requests \<noteq> []"
    and rpc: "BulkCheckPermission client
                \<lparr>BulkCheckPermissionRequest.consistency =
                   (if fc then Some (Consistency_fully_consistent True)
                    else if ml then Some (Consistency_minimize_latency True) else None),
                 items = map bulk_item requests\<rparr> w = (Inr response, w')"
  shows "\<exists>d. check_many client requests fc ml w = (Inr d, w')
           \<and> distinct (map fst d)
           \<and> (\<forall>r\<in>set requests. count_list (map fst d) r = 1)
           \<and> (\<forall>k\<in>fst ` set d.
                 map_of d k = Some (if \<exists>p\<in>set (pairs response). reports_allow p k
                                    then allow else forbid))"
proof -
  let ?init = "fold (\<lambda>c d. AList.update c forbid d) requests []"
  let ?res = "fold apply_pair (pairs response) ?init"
  have run: "check_many client requests fc ml w = (Inr ?res, w')"
    using ne rpc by (rule check_many_run)
  have "distinct (map fst ?init)" by (rule distinct_forbid_fold) simp
  then have dist: "distinct (map fst ?res)" by (rule distinct_fold_apply_pair)
  have keys0: "fst ` set ?init = set requests" by (simp add: keys_forbid_fold)
  have keys: "set requests \<subseteq> fst ` set ?res"
    using keys_fold_apply_pair[of ?init "pairs response"] keys0 by simp
  have once: "\<forall>r\<in>set requests. count_list (map fst ?res) r = 1"
  proof
    fix r assume "r \<in> set requests"
    with keys have "r \<in> set (map fst ?res)" by auto
    with dist show "count_list (map fst ?res) r = 1" by (rule count_list_distinct)
  qed
  have val: "map_of ?res k = Some (if \<exists>p\<in>set (pairs response). reports_allow p k
                                    then allow else forbid)"
    if k: "k \<in> fst ` set ?res" for k
  proof (cases "\<exists>p\<in>set (pairs response). reports_allow p k")
    case True
    then show ?thesis by (simp add: map_of_fold_apply_pair)
  next
    case False
    with k have "k \<in> fst ` set ?init" using new_keys_allowed by blast
    then have "k \<in> set requests" using keys0 by simp
    with False show ?thesis by (simp add: map_of_fold_apply_pair map_of_forbid_fold)
  qed
  show ?thesis using run dist once val by blast
qed

text \<open>
  Two requests, of which the remote side echoes the first with permission, the second
  not at all, and a third tuple without permission.
\<close>

theorem check_many_total_forbid_by_default_witness:
  "check_many
     (client_answering PERMISSIONSHIP_NO_PERMISSION
        [echo_pair (doc1_view_user (IInt 1)) PERMISSIONSHIP_HAS_PERMISSION,
         echo_pair (doc1_view_user (IInt 3)) PERMISSIONSHIP_NO_PERMISSION] None None)
     [doc1_view_user (IInt 1), doc1_view_user (IStr ''2'')] False False []
   = (Inr [(doc1_view_user (IStr ''1''), allow), (doc1_view_user (IStr ''2''), forbid)],
      [Call_BulkCheckPermission
         \<lparr>BulkCheckPermissionRequest.consistency = None,
          items = [bulk_item (doc1_view_user (IStr ''1'')),
                   bulk_item (doc1_view_user (IStr ''2''))]\<rparr>])"
proof -
  let ?ps = "[echo_pair (doc1_view_user (IInt 1)) PERMISSIONSHIP_HAS_PERMISSION,
              echo_pair (doc1_view_user (IInt 3)) PERMISSIONSHIP_NO_PERMISSION]"
  let ?rs = "[doc1_view_user (IInt 1), doc1_view_user (IStr ''2'')]"
  let ?q = "\<lparr>BulkCheckPermissionRequest.consistency = None, items = map bulk_item ?rs\<rparr>"
  have one: "str_int 1 = ''1''" by (simp add: str_int_def str_nat.simps)
  have h1: "?rs \<noteq> []" by simp
  have h2: "BulkCheckPermission
              (client_answering PERMISSIONSHIP_NO_PERMISSION ?ps None None)
              \<lparr>BulkCheckPermissionRequest.consistency =
                 (if False then Some (Consistency_fully_consistent True)
                  else if False then Some (Consistency_minimize_latency True) else None),
               items = map bulk_item ?rs\<rparr> []
            = (Inr \<lparr>pairs = ?ps\<rparr>, [Call_BulkCheckPermission ?q])"
    by (simp add: client_answering_def recording_client_def)
  have run: "check_many (client_answering PERMISSIONSHIP_NO_PERMISSION ?ps None None)
               ?rs False False []
             = (Inr (fold apply_pair (pairs \<lparr>pairs = ?ps\<rparr>)
                       (fold (\<lambda>c d. AList.update c forbid d) ?rs [])),
                [Call_BulkCheckPermission ?q])"
    by (rule check_many_run[OF h1 h2])
  have val: "fold apply_pair (pairs \<lparr>pairs = ?ps\<rparr>)
               (fold (\<lambda>c d. AList.update c forbid d) ?rs [])
             = [(doc1_view_user (IStr ''1''), allow), (doc1_view_user (IStr ''2''), forbid)]"
    by (simp add: apply_pair_cases echo_pair_def bulk_item_def doc1_view_user_def
        new_CheckRequest_def subject_id_validator_def object_id_validator_def one)
  have sent: "map bulk_item ?rs
             = [bulk_item (doc1_view_user (IStr ''1'')), bulk_item (doc1_view_user (IStr ''2''))]"
    by (simp add: doc1_view_user_def new_CheckRequest_def subject_id_validator_def one)
  show ?thesis
    using check_many_total_forbid_by_default[OF h1 h2]
    unfolding run val sent by simp
qed

lemma values_forbid_fold:
  "snd ` set (fold (\<lambda>c d. AList.update c v d) rs d0) \<subseteq> insert v (snd ` set d0)"
proof (induction rs arbitrary: d0)
  case Nil
  then show ?case by auto
next
  case (Cons r rs)
  have "snd ` set (AList.update r v d0) \<subseteq> insert v (snd ` set d0)"
    by (induction d0) auto
  with Cons.IH[of "AList.update r v d0"] show ?case by auto
qed

lemma values_apply_pair: "snd ` set (apply_pair p d) \<subseteq> insert allow (snd ` set d)"
proof -
  have "snd ` set (AList.update k allow d) \<subseteq> insert allow (snd ` set d)" for k
    by (induction d) auto
  then show ?thesis by (auto simp: apply_pair_cases)
qed

lemma values_fold_apply_pair:
  "snd ` set (fold apply_pair ps d) \<subseteq> insert allow (snd ` set d)"
proof (induction ps arbitrary: d)
  case Nil
  then show ?case by auto
next
  case (Cons p ps)
  from Cons.IH[of "apply_pair p d"] values_apply_pair[of p d] show ?case by auto
qed

lemma check_many_values:
  "fst (check_many client requests fc ml w) = Inr d \<Longrightarrow> undefined \<notin> snd ` set d"
proof -
  assume a: "fst (check_many client requests fc ml w) = Inr d"
  show ?thesis
  proof (cases "requests = []")
    case True
    with a show ?thesis by (simp add: check_many_def)
  next
    case False
    let ?init = "fold (\<lambda>c d. AList.update c forbid d) requests []"
    let ?q = "\<lparr>BulkCheckPermissionRequest.consistency =
                 (if fc then Some (Consistency_fully_consistent True)
                  else if ml then Some (Consistency_minimize_latency True) else None),
               items = map bulk_item requests\<rparr>"
    obtain res w' where r: "BulkCheckPermission client ?q w = (res, w')"
      by (cases "BulkCheckPermission client ?q w")
    show ?thesis
    proof (cases res)
      case (Inl e)
      with a False r show ?thesis by (simp add: check_many_def Let_def)
    next
      case (Inr response)
      with r have "BulkCheckPermission client ?q w = (Inr response, w')" by simp
      with False have "check_many client requests fc ml w =
          (Inr (fold apply_pair (pairs response) ?init), w')"
        by (rule check_many_run)
      with a have d: "d = fold apply_pair (pairs response) ?init" by simp
      have "snd ` set ?init \<subseteq> {forbid}"
        using values_forbid_fold[of forbid requests "[]"] by simp
      then have "insert allow (snd ` set ?init) \<subseteq> {allow, forbid}" by blast
      with values_fold_apply_pair[of "pairs response" ?init]
      have "snd ` set d \<subseteq> {allow, forbid}" unfolding d by (rule subset_trans)
      then show ?thesis by auto
    qed
  qed
qed

section \<open>check and is\_allowed\<close>

text \<open>
  Claim C10. Whatever the remote side answers, \<open>check\<close> returns \<open>allow\<close> or \<open>forbid\<close> and
  never \<open>undefined\<close>, and so does every value of the mapping \<open>check_many\<close> returns.
  Hence \<open>is_allowed\<close> is true exactly when \<open>check\<close> returns \<open>allow\<close> and false exactly when
  it returns \<open>forbid\<close>; an exception of \<open>check\<close> is the exception of \<open>is_allowed\<close>, the
  remote side is left in the same state, and the inherited \<open>is_allowed\<close> of the base
  class agrees on a call without flags.
\<close>

theorem check_allow_or_forbid:
  "fst (check client req fc ml w) \<noteq> Inr undefined
   \<and> (case fst (check_many client requests fc ml w) of
        Inl e \<Rightarrow> True
      | Inr d \<Rightarrow> undefined \<notin> snd ` set d)
   \<and> (fst (is_allowed client req fc ml w) = Inr True)
        = (fst (check client req fc ml w) = Inr allow)
   \<and> (fst (is_allowed client req fc ml w) = Inr False)
        = (fst (check client req fc ml w) = Inr forbid)
   \<and> (fst (is_allowed client req fc ml w) = Inl e)
        = (fst (check client req fc ml w) = Inl e)
   \<and> snd (is_allowed client req fc ml w) = snd (check client req fc ml w)
   \<and> BaseAuthzed_is_allowed (check client) req False False w
        = is_allowed client req False False w"
proof -
  have v: "fst (check client req fc ml w) \<noteq> Inr undefined"
    by (auto simp: check_def Let_def split: prod.splits sum.splits if_splits)
  have m: "(case fst (check_many client requests fc ml w) of
        Inl e \<Rightarrow> True
      | Inr d \<Rightarrow> undefined \<notin> snd ` set d)"
    using check_many_values[of client requests fc ml w] by (simp split: sum.splits)
  have i: "is_allowed client req fc ml w =
     (map_sum id is_allowed_Access (fst (check client req fc ml w)),
      snd (check client req fc ml w))"
    by (auto simp: is_allowed_def split: prod.splits sum.splits)
  have b: "BaseAuthzed_is_allowed (check client) req False False w
        = is_allowed client req False False w"
    by (simp add: BaseAuthzed_is_allowed_def is_allowed_def)
  have t: "(fst (is_allowed client req fc ml w) = Inr True)
        = (fst (check client req fc ml w) = Inr allow)"
    unfolding i by (cases "fst (check client req fc ml w)") (auto simp: is_allowed_Access_def)
  have f: "(fst (is_allowed client req fc ml w) = Inr False)
        = (fst (check client req fc ml w) = Inr forbid)"
    unfolding i using v
    by (cases "fst (check client req fc ml w)")
       (auto simp: is_allowed_Access_def intro: Access.exhaust)
  have x: "(fst (is_allowed client req fc ml w) = Inl e)
        = (fst (check client req fc ml w) = Inl e)"
    unfolding i by (cases "fst (check client req fc ml w)") auto
  have s: "snd (is_allowed client req fc ml w) = snd (check client req fc ml w)"
    unfolding i by simp
  show ?thesis using v m t f x s b by blast
qed

theorem check_allow_or_forbid_witness:
  "fst (check (client_answering PERMISSIONSHIP_CONDITIONAL_PERMISSION [] None None)
          (doc1_view_user (IInt 1)) False False []) = Inr forbid
   \<and> fst (is_allowed (client_answering PERMISSIONSHIP_CONDITIONAL_PERMISSION [] None None)
          (doc1_view_user (IInt 1)) False False []) = Inr False
   \<and> fst (is_allowed (client_answering PERMISSIONSHIP_HAS_PERMISSION [] None None)
          (doc1_view_user (IInt 1)) False False []) = Inr True"
proof -
  have c1: "fst (check (client_answering PERMISSIONSHIP_CONDITIONAL_PERMISSION [] None None)
          (doc1_view_user (IInt 1)) False False []) = Inr forbid"
    by (simp add: check_def client_answering_def recording_client_def)
  have c2: "fst (check (client_answering PERMISSIONSHIP_HAS_PERMISSION [] None None)
          (doc1_view_user (IInt 1)) False False []) = Inr allow"
    by (simp add: check_def client_answering_def recording_client_def)
  show ?thesis
    using c1 c2
      check_allow_or_forbid[where client =
          "client_answering PERMISSIONSHIP_CONDITIONAL_PERMISSION [] None None"
        and req = "doc1_view_user (IInt 1)" and fc = False and ml = False
        and w = "[]" and requests = "[]"]
      check_allow_or_forbid[where client =
          "client_answering PERMISSIONSHIP_HAS_PERMISSION [] None None"
        and req = "doc1_view_user (IInt 1)" and fc = False and ml = False
        and w = "[]" and requests = "[]"]
    by simp
qed

section \<open>subjects\<close>

lemma spec_subjects_children:
  "map f (filter P (concat (map L (concat (map N cs))))) =
   concat (map (\<lambda>c. map f (filter P (concat (map L (N c))))) cs)"
  by (induction cs) simp_all

lemma parse_subjects_spec: "parse_subjects root st = spec_subjects root st"
proof (induction root st rule: parse_subjects.induct)
  case (1 l i st)
  have kids: "concat (map (\<lambda>c. parse_subjects c st) cs) =
        map (\<lambda>sub. object_id (object sub))
          (filter (\<lambda>sub. object_type (object sub) = st)
             (concat (map leaf_subjects (concat (map nodes_dfs cs)))))"
    if "i = Some (AlgebraicSubjectSet (Some cs))" for cs
  proof -
    have "\<And>c. c \<in> set cs \<Longrightarrow> parse_subjects c st = spec_subjects c st"
      using 1 that by blast
    then have eq: "map (\<lambda>c. parse_subjects c st) cs = map (\<lambda>c. spec_subjects c st) cs"
      by simp
    show ?thesis
      by (simp only: eq spec_subjects_children spec_subjects_def)
  qed
  show ?case
  proof (cases i)
    case None
    then show ?thesis
      by (simp add: spec_subjects_def leaf_subjects_def split: option.splits)
  next
    case (Some a)
    then show ?thesis
    proof (cases a)
      case (AlgebraicSubjectSet ch)
      show ?thesis
      proof (cases ch)
        case None
        with Some AlgebraicSubjectSet show ?thesis
          by (simp add: spec_subjects_def leaf_subjects_def split: option.splits)
      next
        case (Some cs)
        with \<open>i = Some a\<close> AlgebraicSubjectSet
        have i: "i = Some (AlgebraicSubjectSet (Some cs))"
          by simp
        show ?thesis
          using kids[OF i] i
          by (simp add: spec_subjects_def leaf_subjects_def split: option.splits)
      qed
    qed
  qed
qed

text \<open>
  Claim C6. For the expansion tree the remote side returns, \<open>subjects\<close> yields exactly
  the identifiers of the subjects listed at the leaves of the tree whose subject type
  is the filter, in the depth-first, left-to-right order of the tree; a subject of
  another type is left out.
\<close>

theorem subjects_matching_leaves_depth_first:
  assumes "ExpandPermissionTree client
             \<lparr>ExpandPermissionTreeRequest.resource =
                \<lparr>object_type = rt, object_id = str_py rid\<rparr>,
              permission = perm,
              consistency =
                (if fc then Some (Consistency_fully_consistent True) else None)\<rparr> w
           = (Inr response, w')"
    and "tree_root response = Some root"
  shows "subjects_of client rt rid perm st fc w = (Inr (spec_subjects root st), w')
         \<and> parse_subjects root st = spec_subjects root st
         \<and> set (spec_subjects root st) =
             {object_id (object sub) | sub n.
                n \<in> set (nodes_dfs root) \<and> sub \<in> set (leaf_subjects n)
                \<and> object_type (object sub) = st}"
proof -
  have "subjects_of client rt rid perm st fc w = (Inr (parse_subjects root st), w')"
    using assms by (simp add: subjects_of_def)
  moreover have "set (spec_subjects root st) =
             {object_id (object sub) | sub n.
                n \<in> set (nodes_dfs root) \<and> sub \<in> set (leaf_subjects n)
                \<and> object_type (object sub) = st}"
    by (auto simp: spec_subjects_def)
  ultimately show ?thesis by (simp add: parse_subjects_spec)
qed

theorem subjects_matching_leaves_depth_first_witness:
  "subjects_of (client_answering PERMISSIONSHIP_NO_PERMISSION [] None (Some sample_tree))
     ''doc'' (IInt 1) ''view'' ''user'' False []
   = (Inr [''7'', ''3'', ''4'', ''1''],
      [Call_ExpandPermissionTree
         \<lparr>ExpandPermissionTreeRequest.resource = \<lparr>object_type = ''doc'', object_id = ''1''\<rparr>,
          permission = ''view'', consistency = None\<rparr>])"
proof -
  let ?q = "\<lparr>ExpandPermissionTreeRequest.resource =
               \<lparr>object_type = ''doc'', object_id = str_py (IInt 1)\<rparr>,
             permission = ''view'',
             consistency = (if False then Some (Consistency_fully_consistent True) else None)\<rparr>"
  have one: "str_int 1 = ''1''" by (simp add: str_int_def str_nat.simps)
  have h1: "ExpandPermissionTree
              (client_answering PERMISSIONSHIP_NO_PERMISSION [] None (Some sample_tree)) ?q []
            = (Inr \<lparr>tree_root = Some sample_tree\<rparr>, [Call_ExpandPermissionTree ?q])"
    by (simp add: client_answering_def recording_client_def)
  have h2: "tree_root \<lparr>tree_root = Some sample_tree\<rparr> = Some sample_tree" by simp
  have v: "spec_subjects sample_tree ''user'' = [''7'', ''3'', ''4'', ''1'']"
    by (simp add: spec_subjects_def sample_tree_def leaf_node_def leaf_subjects_def
        subject_ref_def)
  show ?thesis
    using subjects_matching_leaves_depth_first[OF h1 h2, of "''user''"]
    by (simp add: v one)
qed

section \<open>Consistency\<close>

text \<open>
  What each entry point sends, for every request, flags and history of the remote side,
  which here records the calls it receives. \<open>check\<close>, \<open>check_many\<close> and the \<open>is_allowed\<close>
  and \<open>is_allowed_many\<close> of \<open>AuthzedGrpc\<close> attach the fully-consistent setting whenever
  \<open>full_consistent\<close> is set; \<open>is_allowed\<close> and \<open>is_allowed_many\<close> of the base class attach
  the minimize-latency setting whenever \<open>minimize_latency\<close> is set. With neither flag no
  setting is attached.
\<close>

lemma consistency_sent:
  "map call_consistency (snd (check (recording_client r1 r2 r3 r4) req fc ml calls))
     = map call_consistency calls @
       [if fc then Some (Consistency_fully_consistent True)
        else if ml then Some (Consistency_minimize_latency True) else None]
   \<and> map call_consistency
       (snd (check_many (recording_client r1 r2 r3 r4) (req # reqs) fc ml calls))
     = map call_consistency calls @
       [if fc then Some (Consistency_fully_consistent True)
        else if ml then Some (Consistency_minimize_latency True) else None]
   \<and> map call_consistency
       (snd (is_allowed (recording_client r1 r2 r3 r4) req fc ml calls))
     = map call_consistency calls @
       [if fc then Some (Consistency_fully_consistent True)
        else if ml then Some (Consistency_minimize_latency True) else None]
   \<and> map call_consistency
       (snd (is_allowed_many (recording_client r1 r2 r3 r4) (req # reqs) fc ml calls))
     = map call_consistency calls @
       [if fc then Some (Consistency_fully_consistent True)
        else if ml then Some (Consistency_minimize_latency True) else None]
   \<and> map call_consistency
       (snd (BaseAuthzed_is_allowed (check (recording_client r1 r2 r3 r4)) req fc ml calls))
     = map call_consistency calls @
       [if ml then Some (Consistency_minimize_latency True)
        else if fc then Some (Consistency_fully_consistent True) else None]
   \<and> map call_consistency
       (snd (BaseAuthzed_is_allowed_many (check_many (recording_client r1 r2 r3 r4))
               (req # reqs) fc ml calls))
     = map call_consistency calls @
       [if ml then Some (Consistency_minimize_latency True)
        else if fc then Some (Consistency_fully_consistent True) else None]"
  by (simp add: check_def check_many_def is_allowed_def is_allowed_many_def
      BaseAuthzed_is_allowed_def BaseAuthzed_is_allowed_many_def recording_client_def)

text \<open>
  Claim C2. With both flags set, the request sent should carry the minimize-latency
  setting. \<open>is_allowed\<close> and \<open>is_allowed_many\<close> of the base class send that. \<open>check\<close> and
  \<open>check_many\<close>, and with them the \<open>is_allowed\<close> and \<open>is_allowed_many\<close> of \<open>AuthzedGrpc\<close>,
  test \<open>full_consistent\<close> first and send the fully-consistent setting instead: the calls
  the remote side receives for one request with both flags set.
\<close>

theorem check_both_flags_sends_fully_consistent:
  "map call_consistency
     (snd (check (client_answering PERMISSIONSHIP_HAS_PERMISSION [] None None)
             (doc1_view_user (IInt 1)) True True []))
     = [Some (Consistency_fully_consistent True)]
   \<and> map call_consistency
     (snd (check_many (client_answering PERMISSIONSHIP_HAS_PERMISSION [] None None)
             [doc1_view_user (IInt 1)] True True []))
     = [Some (Consistency_fully_consistent True)]
   \<and> map call_consistency
     (snd (is_allowed (client_answering PERMISSIONSHIP_HAS_PERMISSION [] None None)
             (doc1_view_user (IInt 1)) True True []))
     = [Some (Consistency_fully_consistent True)]
   \<and> map call_consistency
     (snd (is_allowed_many (client_answering PERMISSIONSHIP_HAS_PERMISSION [] None None)
             [doc1_view_user (IInt 1)] True True []))
     = [Some (Consistency_fully_consistent True)]
   \<and> map call_consistency
     (snd (BaseAuthzed_is_allowed
             (check (client_answering PERMISSIONSHIP_HAS_PERMISSION [] None None))
             (doc1_view_user (IInt 1)) True True []))
     = [Some (Consistency_minimize_latency True)]
   \<and> map call_consistency
     (snd (BaseAuthzed_is_allowed_many
             (check_many (client_answering PERMISSIONSHIP_HAS_PERMISSION [] None None))
             [doc1_view_user (IInt 1)] True True []))
     = [Some (Consistency_minimize_latency True)]
   \<and> Some (Consistency_fully_consistent True) \<noteq> Some (Consistency_minimize_latency True)"
  by (simp add: check_def check_many_def is_allowed_def is_allowed_many_def
      BaseAuthzed_is_allowed_def BaseAuthzed_is_allowed_many_def client_answering_def
      recording_client_def)

section \<open>update\<close>

lemma relationship_updates_null:
  "None \<in> set (map update_type upds) \<Longrightarrow>
   relationship_updates upds =
     Inl (if Some create \<in> set (takeWhile (\<lambda>t. t \<noteq> None) (map update_type upds))
          then NotImplementedError ''Relation update type not defined.''
          else ValueError ''update_type cannot be None'')"
proof (induction upds)
  case Nil
  then show ?case by simp
next
  case (Cons u us)
  show ?case
  proof (cases "update_type u")
    case None
    then show ?thesis by simp
  next
    case (Some t)
    with Cons.prems have "None \<in> set (map update_type us)" by auto
    from Cons.IH[OF this] Some show ?thesis
      by (cases t) (auto simp: Let_def)
  qed
qed

text \<open>
  Claim C4, as stated: a list with a null \<open>update_type\<close> makes \<open>update\<close> raise
  \<open>ValueError\<close>. When an element of type \<open>create\<close> comes before the null one, the loop
  reaches it first and raises \<open>NotImplementedError\<close>.
\<close>

theorem update_null_after_create_counterexample:
  "update (client_answering PERMISSIONSHIP_NO_PERMISSION [] (Some \<lparr>token = ''t1''\<rparr>) None)
     [owner_update (Passed (Some create)), owner_update Omitted] []
   = (Inl (NotImplementedError ''Relation update type not defined.''), [])"
  by (simp add: update_def owner_update_def new_RelationUpdateRequest_def)

text \<open>
  Claim C4, amended. A list with at least one element whose \<open>update_type\<close> is null makes
  \<open>update\<close> raise before any remote write call is issued, so the remote side is left as
  it was: it raises \<open>ValueError\<close>, unless an element of type \<open>create\<close> comes before the
  first null one, and then \<open>NotImplementedError\<close>.
\<close>

theorem update_null_raises_before_write:
  assumes "None \<in> set (map update_type upds)"
  shows "update client upds w =
           (Inl (if Some create \<in> set (takeWhile (\<lambda>t. t \<noteq> None) (map update_type upds))
                 then NotImplementedError ''Relation update type not defined.''
                 else ValueError ''update_type cannot be None''), w)"
  using relationship_updates_null[OF assms] by (simp add: update_def)

theorem update_null_raises_before_write_witness:
  "update (client_answering PERMISSIONSHIP_NO_PERMISSION [] (Some \<lparr>token = ''t1''\<rparr>) None)
     [owner_update (Passed (Some grant)), owner_update Omitted,
      owner_update (Passed (Some create))] []
   = (Inl (ValueError ''update_type cannot be None''), [])"
proof -
  let ?upds = "[owner_update (Passed (Some grant)), owner_update Omitted,
                owner_update (Passed (Some create))]"
  have h: "None \<in> set (map update_type ?upds)"
    by (simp add: owner_update_def new_RelationUpdateRequest_def)
  show ?thesis
    using update_null_raises_before_write[OF h]
    by (simp add: owner_update_def new_RelationUpdateRequest_def)
qed

text \<open>
  The attribute read that \<open>update\<close> guards cannot raise: whenever the updates pass the
  local checks and the remote write is answered, \<open>update\<close> returns \<open>None\<close>, whatever the
  response carries, and the \<open>RuntimeError\<close> of its \<open>except\<close> branch is never raised. A
  failed call is passed on as it is.
\<close>

lemma update_answered:
  assumes "relationship_updates upds = Inr rus"
  shows "(WriteRelationships client \<lparr>updates = rus\<rparr> w = (Inr response, w')
            \<longrightarrow> update client upds w = (Inr (), w'))
         \<and> (WriteRelationships client \<lparr>updates = rus\<rparr> w = (Inl e, w')
            \<longrightarrow> update client upds w = (Inl e, w'))"
  using assms by (simp add: update_def read_written_at_token_def)

text \<open>
  Claim C5. When the remote write response carries no write acknowledgement token,
  \<open>update\<close> (and \<open>grant\<close>, \<open>revoke\<close>, \<open>grant_many\<close>, \<open>revoke_many\<close>, which call it) should
  raise \<open>RuntimeError\<close>. It returns \<open>None\<close>: the remote side here answers the write with a
  response whose \<open>written_at\<close> is unset, which reads as the empty token.
\<close>

theorem update_without_token_returns_none:
  "update (client_answering PERMISSIONSHIP_NO_PERMISSION [] None None)
     [owner_update (Passed (Some grant))] []
   = (Inr (),
      [Call_WriteRelationships
         \<lparr>updates =
            [\<lparr>operation = OPERATION_TOUCH,
              relationship =
                \<lparr>Relationship.resource = \<lparr>object_type = ''doc'', object_id = ''1''\<rparr>,
                 relation = ''owner'',
                 subject = \<lparr>object = \<lparr>object_type = ''user'', object_id = ''1''\<rparr>,
                            optional_relation = ''''\<rparr>\<rparr>\<rparr>]\<rparr>])
   \<and> fst (grant_rel (client_answering PERMISSIONSHIP_NO_PERMISSION [] None None)
           ''doc'' (IInt 1) ''owner'' ''user'' (IInt 1) '''' []) = Inr ()
   \<and> fst (revoke_rel (client_answering PERMISSIONSHIP_NO_PERMISSION [] None None)
           ''doc'' (IInt 1) ''owner'' ''user'' (IInt 1) '''' []) = Inr ()
   \<and> fst (grant_many (client_answering PERMISSIONSHIP_NO_PERMISSION [] None None)
           [owner_update (Passed (Some grant))] []) = Inr ()
   \<and> fst (revoke_many (client_answering PERMISSIONSHIP_NO_PERMISSION [] None None)
           [owner_update (Passed (Some revoke))] []) = Inr ()
   \<and> token (written_at \<lparr>written_at_field = None\<rparr>) = ''''
   \<and> fst (update (client_answering PERMISSIONSHIP_NO_PERMISSION []
                  (Some \<lparr>token = ''t1''\<rparr>) None)
           [owner_update (Passed (Some grant))] []) = Inr ()"
proof -
  have one: "str_int 1 = ''1''" by (simp add: str_int_def str_nat.simps)
  show ?thesis
    by (simp add: update_def grant_rel_def revoke_rel_def grant_many_def revoke_many_def
        owner_update_def new_RelationUpdateRequest_def read_written_at_token_def
        written_at_def client_answering_def recording_client_def one)
qed

section \<open>resources\_many\<close>

lemma map_of_fold_update:
  "map_of (fold (\<lambda>x d. AList.update (kf x) (vf x) d) xs d0) =
     map_of (rev (map (\<lambda>x. (kf x, vf x)) xs) @ d0)"
  by (induction xs arbitrary: d0) (simp_all add: update_conv' map_add_upd_left fun_eq_iff)

lemma distinct_fold_update:
  "distinct (map fst d0) \<Longrightarrow>
   distinct (map fst (fold (\<lambda>x d. AList.update (kf x) (vf x) d) xs d0))"
  by (induction xs arbitrary: d0) (simp_all add: distinct_update)

lemma keys_fold_update:
  "fst ` set (fold (\<lambda>x d. AList.update (kf x) (vf x) d) xs d0) = kf ` set xs \<union> fst ` set d0"
  by (induction xs arbitrary: d0) (auto simp: dom_update)

lemma map_of_rev_last:
  "i < length xs \<Longrightarrow> (\<forall>j<length xs. i < j \<longrightarrow> fst (xs ! j) \<noteq> fst (xs ! i)) \<Longrightarrow>
   map_of (rev xs) (fst (xs ! i)) = Some (snd (xs ! i))"
proof (induction xs rule: rev_induct)
  case Nil
  then show ?case by simp
next
  case (snoc y ys)
  show ?case
  proof (cases "i = length ys")
    case True
    then show ?thesis by simp
  next
    case False
    with snoc.prems(1) have i: "i < length ys" by simp
    from snoc.prems(2) have "length ys < length (ys @ [y]) \<longrightarrow> i < length ys \<longrightarrow>
        fst ((ys @ [y]) ! length ys) \<noteq> fst ((ys @ [y]) ! i)"
      by (rule spec)
    with i have "fst ((ys @ [y]) ! length ys) \<noteq> fst ((ys @ [y]) ! i)" by simp
    then have ne: "fst y \<noteq> fst (ys ! i)" using i by (simp add: nth_append)
    have "\<forall>j<length ys. i < j \<longrightarrow> fst (ys ! j) \<noteq> fst (ys ! i)"
    proof (intro allI impI)
      fix j assume j: "j < length ys" "i < j"
      from snoc.prems(2) have "j < length (ys @ [y]) \<longrightarrow> i < j \<longrightarrow>
          fst ((ys @ [y]) ! j) \<noteq> fst ((ys @ [y]) ! i)"
        by (rule spec)
      with j have "fst ((ys @ [y]) ! j) \<noteq> fst ((ys @ [y]) ! i)" by simp
      with i j show "fst (ys ! j) \<noteq> fst (ys ! i)" by (simp add: nth_append)
    qed
    from snoc.IH[OF i this] ne i show ?thesis by (simp add: nth_append)
  qed
qed

lemma collect_no_cancel:
  "Cancelled \<notin> snd ` set ts \<Longrightarrow>
   collect ts res s =
     (Inr (fold (\<lambda>x d. AList.update (fst x) (contribution (snd x)) d) ts res),
      s\<lparr>logged := logged s @ concat (map (\<lambda>x. task_log (snd x)) ts),
        cancel_called := cancel_called s @ map fst (filter (\<lambda>x. snd x = Pending) ts)\<rparr>)"
proof (induction ts arbitrary: res s)
  case Nil
  then show ?case by simp
next
  case (Cons x ts)
  obtain req t where x: "x = (req, t)" by (cases x)
  from Cons.prems x have t: "t \<noteq> Cancelled" and rest: "Cancelled \<notin> snd ` set ts"
    by auto
  show ?case
    using t by (cases t) (simp_all add: x Cons.IH[OF rest])
qed

lemma map_of_rev_distinct:
  "distinct (map fst xs) \<Longrightarrow> map_of (rev xs) = map_of xs"
proof (induction xs)
  case Nil
  then show ?case by simp
next
  case (Cons x xs)
  then have "fst x \<notin> dom (map_of xs)" by (simp add: dom_map_of_conv_image_fst)
  then have "map_of xs (fst x) = None" by blast
  with Cons show ?case
    by (cases x) (auto simp: fun_eq_iff map_add_def split: option.splits)
qed

lemma map_of_contributions:
  assumes "distinct (map fst ts)" and "(k, t) \<in> set ts"
  shows "map_of (fold (\<lambda>x d. AList.update (fst x) (contribution (snd x)) d) ts []) k
           = Some (contribution t)"
proof -
  let ?m = "map (\<lambda>x. (fst x, contribution (snd x))) ts"
  have d: "distinct (map fst ?m)" using assms(1) by (simp add: comp_def)
  have "(k, contribution t) \<in> set ?m" using assms(2) by force
  with d have "map_of ?m k = Some (contribution t)" by simp
  then show ?thesis by (simp add: map_of_fold_update map_of_rev_distinct[OF d])
qed

lemma resources_many_tasks:
  "resources_many spawn requests limit cursor s =
     collect
       (fold (\<lambda>x d. AList.update (snd x)
                 (spawn (fst x) (resources_args (snd x) limit cursor)) d)
          (zip [0..<length requests] requests) []) [] s"
  by (simp add: resources_many_def resources_args_def case_prod_unfold)

text \<open>
  The three states the loop handles. When the wait has returned and no task has been
  cancelled, \<open>resources_many\<close> returns a mapping and does not raise. Its keys are exactly
  the requests, each once (so \<open>N\<close> keys for \<open>N\<close> different requests). The task kept for a
  request is the one created for its last occurrence in the list; the request is mapped
  to the empty list when that task has not finished or has raised, and to the task's
  result otherwise. An unfinished task is cancelled and logged as an error, and so is
  the exception of a task that raised.
\<close>

lemma resources_many_degrades:
  assumes nc: "\<forall>i<length requests.
                 spawn i (resources_args (requests ! i) limit cursor) \<noteq> Cancelled"
  shows "\<exists>d s'. resources_many spawn requests limit cursor s = (Inr d, s')
           \<and> distinct (map fst d)
           \<and> fst ` set d = set requests
           \<and> (distinct requests \<longrightarrow> length d = length requests)
           \<and> (\<forall>i<length requests.
                 (\<forall>j<length requests. i < j \<longrightarrow> requests ! j \<noteq> requests ! i) \<longrightarrow>
                 map_of d (requests ! i)
                   = Some (contribution (spawn i (resources_args (requests ! i) limit cursor)))
                 \<and> (spawn i (resources_args (requests ! i) limit cursor) = Pending \<longrightarrow>
                      LogError ''Authzed resources request task not finished.''
                        \<in> set (logged s')
                      \<and> requests ! i \<in> set (cancel_called s'))
                 \<and> (\<forall>e. spawn i (resources_args (requests ! i) limit cursor) = Raised e \<longrightarrow>
                      LogException e \<in> set (logged s')))"
proof -
  let ?n = "length requests"
  let ?ps = "zip [0..<?n] requests"
  let ?task = "\<lambda>x. spawn (fst x) (resources_args (snd x) limit cursor)"
  let ?kv = "map (\<lambda>x. (snd x, ?task x)) ?ps"
  let ?tasks = "fold (\<lambda>x d. AList.update (snd x) (?task x) d) ?ps []"
  let ?res = "fold (\<lambda>x d. AList.update (fst x) (contribution (snd x)) d) ?tasks []"
  let ?s' = "s\<lparr>logged := logged s @ concat (map (\<lambda>x. task_log (snd x)) ?tasks),
               cancel_called := cancel_called s
                 @ map fst (filter (\<lambda>x. snd x = Pending) ?tasks)\<rparr>"
  have kv_nth: "?kv ! i = (requests ! i, spawn i (resources_args (requests ! i) limit cursor))"
    if "i < ?n" for i
    using that by simp
  have kv_len: "length ?kv = ?n" by simp
  have tasks_map: "map_of ?tasks = map_of (rev ?kv)"
    by (simp add: map_of_fold_update)
  have tasks_dist: "distinct (map fst ?tasks)"
    by (rule distinct_fold_update) simp
  have "map snd ?ps = requests" by simp
  then have "set (map snd ?ps) = set requests" by (simp only:)
  then have ps_snd: "snd ` set ?ps = set requests" by (simp only: set_map)
  have tasks_keys: "fst ` set ?tasks = set requests"
    using keys_fold_update[of snd ?task ?ps "[]"] ps_snd by simp
  have tasks_vals: "\<exists>i<?n. t = spawn i (resources_args (requests ! i) limit cursor)"
    if "(k, t) \<in> set ?tasks" for k t
  proof -
    from that tasks_dist have "map_of ?tasks k = Some t" by simp
    then have "(k, t) \<in> set (rev ?kv)" unfolding tasks_map by (rule map_of_SomeD)
    then have "(k, t) \<in> set ?kv" by simp
    then obtain i where "i < length ?kv" "?kv ! i = (k, t)"
      unfolding in_set_conv_nth by blast
    with kv_nth[of i] show ?thesis by auto
  qed
  have "Cancelled \<notin> snd ` set ?tasks"
  proof
    assume "Cancelled \<in> snd ` set ?tasks"
    then obtain k where "(k, Cancelled) \<in> set ?tasks" by force
    from tasks_vals[OF this] nc show False by auto
  qed
  then have run: "resources_many spawn requests limit cursor s = (Inr ?res, ?s')"
    unfolding resources_many_tasks by (rule collect_no_cancel)
  have res_dist: "distinct (map fst ?res)"
    by (rule distinct_fold_update) simp
  have res_keys: "fst ` set ?res = set requests"
    using keys_fold_update[of fst "\<lambda>x. contribution (snd x)" ?tasks "[]"] tasks_keys
    by simp
  have res_len: "length ?res = ?n" if "distinct requests"
  proof -
    have "length ?res = length (map fst ?res)" by simp
    also have "\<dots> = card (set (map fst ?res))"
      using res_dist by (simp only: distinct_card)
    also have "\<dots> = card (set requests)" using res_keys by simp
    also have "\<dots> = ?n" using that by (rule distinct_card)
    finally show ?thesis .
  qed
  have last: "map_of ?res (requests ! i)
                = Some (contribution (spawn i (resources_args (requests ! i) limit cursor)))
              \<and> (spawn i (resources_args (requests ! i) limit cursor) = Pending \<longrightarrow>
                   LogError ''Authzed resources request task not finished.''
                     \<in> set (logged ?s')
                   \<and> requests ! i \<in> set (cancel_called ?s'))
              \<and> (\<forall>e. spawn i (resources_args (requests ! i) limit cursor) = Raised e \<longrightarrow>
                   LogException e \<in> set (logged ?s'))"
    if i: "i < ?n" and later: "\<forall>j<?n. i < j \<longrightarrow> requests ! j \<noteq> requests ! i" for i
  proof -
    let ?t = "spawn i (resources_args (requests ! i) limit cursor)"
    have "\<forall>j<length ?kv. i < j \<longrightarrow> fst (?kv ! j) \<noteq> fst (?kv ! i)"
    proof (intro allI impI)
      fix j assume j: "j < length ?kv" "i < j"
      then have "j < ?n" by simp
      with later j(2) have "requests ! j \<noteq> requests ! i" by blast
      with \<open>j < ?n\<close> i show "fst (?kv ! j) \<noteq> fst (?kv ! i)" by simp
    qed
    with i have "map_of (rev ?kv) (fst (?kv ! i)) = Some (snd (?kv ! i))"
      by (intro map_of_rev_last) simp_all
    with i have "map_of ?tasks (requests ! i) = Some ?t"
      unfolding tasks_map by simp
    then have mem: "(requests ! i, ?t) \<in> set ?tasks" by (rule map_of_SomeD)
    from tasks_dist mem have v: "map_of ?res (requests ! i) = Some (contribution ?t)"
      by (rule map_of_contributions)
    have p: "LogError ''Authzed resources request task not finished.'' \<in> set (logged ?s')
             \<and> requests ! i \<in> set (cancel_called ?s')"
      if "?t = Pending"
    proof -
      from mem that have m: "(requests ! i, Pending) \<in> set ?tasks" by simp
      then have "LogError ''Authzed resources request task not finished.''
                   \<in> set (concat (map (\<lambda>x. task_log (snd x)) ?tasks))"
        by force
      moreover from m have "requests ! i \<in> set (map fst (filter (\<lambda>x. snd x = Pending) ?tasks))"
        by force
      ultimately show ?thesis by simp
    qed
    have r: "LogException e \<in> set (logged ?s')" if "?t = Raised e" for e
    proof -
      from mem that have "(requests ! i, Raised e) \<in> set ?tasks" by simp
      then have "LogException e \<in> set (concat (map (\<lambda>x. task_log (snd x)) ?tasks))"
        by force
      then show ?thesis by simp
    qed
    from v p r show ?thesis by blast
  qed
  show ?thesis
    using run res_dist res_keys res_len last by blast
qed

text \<open>
  Three requests: the first lookup returns two identifiers, the second is still running
  when the wait returns, the third has raised.
\<close>

lemma resources_many_degrades_example:
  "resources_many sample_spawn
     [sample_resources_request ''view'', sample_resources_request ''edit'',
      sample_resources_request ''admin''] None None \<lparr>logged = [], cancel_called = []\<rparr>
   = (Inr [(sample_resources_request ''view'', [''d1'', ''d2'']),
           (sample_resources_request ''edit'', []),
           (sample_resources_request ''admin'', [])],
      \<lparr>logged = [LogError ''Authzed resources request task not finished.'',
                 LogException (RpcError ''unavailable'')],
       cancel_called = [sample_resources_request ''edit'']\<rparr>)"
proof -
  let ?rs = "[sample_resources_request ''view'', sample_resources_request ''edit'',
              sample_resources_request ''admin'']"
  have h: "\<forall>i<length ?rs. sample_spawn i (resources_args (?rs ! i) None None) \<noteq> Cancelled"
    by (simp add: sample_spawn_def)
  have up: "[0..<length ?rs] = [0, 1, 2]" by (simp add: upt_rec)
  show ?thesis
    using resources_many_degrades[where spawn = sample_spawn and requests = ?rs
        and limit = None and cursor = None
        and s = "\<lparr>logged = [], cancel_called = []\<rparr>", OF h]
    by (simp add: resources_many_def up sample_spawn_def sample_resources_request_def)
qed

text \<open>
  The state the loop misses. A task whose coroutine ended cancelled is done, and
  \<open>task.exception()\<close> raises \<open>CancelledError\<close> on it; nothing catches that, whatever the
  other tasks did.
\<close>

lemma resources_many_cancelled_task:
  "resources_many (\<lambda>i a. Cancelled) [req] limit cursor s = (Inl CancelledError, s)"
  by (simp add: resources_many_def)

text \<open>
  Claim C3. A sub-lookup that fails should contribute an empty list for its key and be
  logged, and \<open>resources_many\<close> should not raise because of it. Of three lookups the
  second ends cancelled and the other two return: \<open>resources_many\<close> raises
  \<open>CancelledError\<close>, the two results are lost and nothing is logged.
\<close>

theorem resources_many_cancelled_sub_lookup_raises:
  "resources_many one_cancelled_spawn
     [sample_resources_request ''view'', sample_resources_request ''edit'',
      sample_resources_request ''admin''] None None \<lparr>logged = [], cancel_called = []\<rparr>
   = (Inl CancelledError, \<lparr>logged = [], cancel_called = []\<rparr>)"
proof -
  have up: "[0..<length [sample_resources_request ''view'', sample_resources_request ''edit'',
              sample_resources_request ''admin'']] = [0, 1, 2]"
    by (simp add: upt_rec)
  show ?thesis
    by (simp add: resources_many_def up one_cancelled_spawn_def sample_resources_request_def)
qed

end
